theory Spec2Isabelle
  imports Complex_Main "HOL-Library.Char_ord" "HOL-Library.List_Lexorder" "HOL-Library.AList"
    "HOL-Library.Multiset"
begin

section \<open>Python values and the built-ins the program calls\<close>

text \<open>
  The program is one Python module, \<^verbatim>\<open>mt_nodes_list.py\<close>. A node record is a nested
  dictionary of scalars, lists and dictionaries, as the mesh library delivers it. A dictionary
  is an association list in insertion order (the order decides which of two colliding flattened
  keys survives, and the order of rows with equal sort keys). A string is a list of 8-bit
  characters, each standing for one code point below 256; \<open>length\<close> is Python's \<open>len\<close>.
  A finite float is the rational number it denotes.

  Not modelled: objects that are no dictionaries (the \<^verbatim>\<open>to_dict\<close> and \<^verbatim>\<open>dir\<close> branches of
  \<^verbatim>\<open>normalize_node\<close>), tuples, non-finite floats and the negative zero, dictionary keys that
  are no strings, the
  interpreter's limit on the number of digits of an integer turned into or read from a string,
  \<^verbatim>\<open>RecursionError\<close> and \<^verbatim>\<open>MemoryError\<close>.
\<close>

datatype pyval =
    PNone
  | PBool bool
  | PInt int
  | PFloat rat
  | PStr string
  | PList "pyval list"
  | PDict "(string \<times> pyval) list"

type_synonym pydict = "(string \<times> pyval) list"

datatype error = IndexError | TypeError

text \<open>\<^verbatim>\<open>d.get(k, default)\<close>, and \<^verbatim>\<open>d[k] = v\<close> is \<^const>\<open>AList.update\<close>.\<close>

definition dict_get :: "pydict \<Rightarrow> string \<Rightarrow> pyval \<Rightarrow> pyval" where
  "dict_get d k dflt = (case map_of d k of None \<Rightarrow> dflt | Some v \<Rightarrow> v)"

text \<open>\<^verbatim>\<open>dict(items)\<close>: a later pair overwrites the value of an earlier one with the same key.\<close>

definition dict_of :: "(string \<times> pyval) list \<Rightarrow> pydict" where
  "dict_of items = foldl (\<lambda>d (k, v). AList.update k v d) [] items"

subsection \<open>Strings\<close>

text \<open>\<^verbatim>\<open>str.isspace\<close> on the code points below 256.\<close>

definition py_isspace :: "char \<Rightarrow> bool" where
  "py_isspace c \<longleftrightarrow> c \<in> set [CHR 0x09, CHR 0x0A, CHR 0x0B, CHR 0x0C, CHR 0x0D,
     CHR 0x1C, CHR 0x1D, CHR 0x1E, CHR 0x1F, CHR '' '', CHR 0x85, CHR 0xA0]"

definition py_strip :: "string \<Rightarrow> string" where
  "py_strip s = rev (dropWhile py_isspace (rev (dropWhile py_isspace s)))"

text \<open>\<^verbatim>\<open>s.split()\<close>: the maximal runs of non-whitespace; \<open>cur\<close> is the run being read.\<close>

fun split_run :: "string \<Rightarrow> string \<Rightarrow> string list" where
  "split_run cur [] = (if cur = [] then [] else [cur])"
| "split_run cur (c # cs) =
     (if py_isspace c then (if cur = [] then split_run [] cs else cur # split_run [] cs)
      else split_run (cur @ [c]) cs)"

definition py_split :: "string \<Rightarrow> string list" where
  "py_split s = split_run [] s"

text \<open>\<^verbatim>\<open>s.ljust(n)\<close> and \<^verbatim>\<open>f"{s:<{n}}"\<close>: pad on the right, never cut.\<close>

definition ljust :: "nat \<Rightarrow> string \<Rightarrow> string" where
  "ljust n s = s @ replicate (n - length s) CHR '' ''"

definition zfill :: "nat \<Rightarrow> string \<Rightarrow> string" where
  "zfill n s = replicate (n - length s) CHR ''0'' @ s"

fun dec :: "nat \<Rightarrow> string" where
  "dec n = (if n < 10 then [''0123456789'' ! n] else dec (n div 10) @ [''0123456789'' ! (n mod 10)])"

declare dec.simps [simp del]

definition str_int :: "int \<Rightarrow> string" where
  "str_int i = (if i < 0 then CHR ''-'' # dec (nat (- i)) else dec (nat i))"

definition hex2 :: "nat \<Rightarrow> string" where
  "hex2 n = [''0123456789abcdef'' ! (n div 16 mod 16), ''0123456789abcdef'' ! (n mod 16)]"

subsection \<open>\<^verbatim>\<open>repr\<close> and \<^verbatim>\<open>str\<close>\<close>

definition py_printable :: "char \<Rightarrow> bool" where
  "py_printable c \<longleftrightarrow> (let n = of_char c :: nat in (32 \<le> n \<and> n < 127) \<or> (161 \<le> n \<and> n \<noteq> 173))"

definition repr_char :: "char \<Rightarrow> char \<Rightarrow> string" where
  "repr_char q c =
     (if c = q \<or> c = CHR 0x5C then [CHR 0x5C, c]
      else if c = CHR 0x09 then [CHR 0x5C, CHR ''t'']
      else if c = CHR 0x0A then [CHR 0x5C, CHR ''n'']
      else if c = CHR 0x0D then [CHR 0x5C, CHR ''r'']
      else if py_printable c then [c]
      else [CHR 0x5C, CHR ''x''] @ hex2 (of_char c))"

definition repr_str :: "string \<Rightarrow> string" where
  "repr_str s =
     (let q = (if CHR 0x27 \<in> set s \<and> CHR 0x22 \<notin> set s then CHR 0x22 else CHR 0x27)
      in [q] @ concat (map (repr_char q) s) @ [q])"

text \<open>\<^verbatim>\<open>", ".join(xs)\<close>\<close>

fun join_comma :: "string list \<Rightarrow> string" where
  "join_comma [] = []"
| "join_comma [x] = x"
| "join_comma (x # y # ys) = x @ '', '' @ join_comma (y # ys)"

text \<open>
  \<open>fr\<close> is \<^verbatim>\<open>float.__repr__\<close>, the shortest decimal that reads back as the same double; it
  is a parameter of the model.
\<close>

fun py_repr :: "(rat \<Rightarrow> string) \<Rightarrow> pyval \<Rightarrow> string"
  and py_repr_items :: "(rat \<Rightarrow> string) \<Rightarrow> (string \<times> pyval) list \<Rightarrow> string list"
  and py_repr_list :: "(rat \<Rightarrow> string) \<Rightarrow> pyval list \<Rightarrow> string list" where
  "py_repr fr PNone = ''None''"
| "py_repr fr (PBool b) = (if b then ''True'' else ''False'')"
| "py_repr fr (PInt i) = str_int i"
| "py_repr fr (PFloat r) = fr r"
| "py_repr fr (PStr s) = repr_str s"
| "py_repr fr (PList xs) = ''['' @ join_comma (py_repr_list fr xs) @ '']''"
| "py_repr fr (PDict d) = ''{'' @ join_comma (py_repr_items fr d) @ ''}''"
| "py_repr_items fr [] = []"
| "py_repr_items fr ((k, v) # d) = (repr_str k @ '': '' @ py_repr fr v) # py_repr_items fr d"
| "py_repr_list fr [] = []"
| "py_repr_list fr (x # xs) = py_repr fr x # py_repr_list fr xs"

definition py_str :: "(rat \<Rightarrow> string) \<Rightarrow> pyval \<Rightarrow> string" where
  "py_str fr v = (case v of PStr s \<Rightarrow> s | _ \<Rightarrow> py_repr fr v)"

subsection \<open>\<^verbatim>\<open>json.dumps(v, ensure_ascii=False)\<close>\<close>

definition json_char :: "char \<Rightarrow> string" where
  "json_char c =
     (if c = CHR 0x5C then [CHR 0x5C, CHR 0x5C]
      else if c = CHR 0x22 then [CHR 0x5C, CHR 0x22]
      else if c = CHR 0x08 then [CHR 0x5C, CHR ''b'']
      else if c = CHR 0x0C then [CHR 0x5C, CHR ''f'']
      else if c = CHR 0x0A then [CHR 0x5C, CHR ''n'']
      else if c = CHR 0x0D then [CHR 0x5C, CHR ''r'']
      else if c = CHR 0x09 then [CHR 0x5C, CHR ''t'']
      else if (of_char c :: nat) < 32 then [CHR 0x5C, CHR ''u'', CHR ''0'', CHR ''0''] @ hex2 (of_char c)
      else [c])"

definition json_str :: "string \<Rightarrow> string" where
  "json_str s = [CHR 0x22] @ concat (map json_char s) @ [CHR 0x22]"

fun json_dumps :: "(rat \<Rightarrow> string) \<Rightarrow> pyval \<Rightarrow> string"
  and json_items :: "(rat \<Rightarrow> string) \<Rightarrow> (string \<times> pyval) list \<Rightarrow> string list"
  and json_list :: "(rat \<Rightarrow> string) \<Rightarrow> pyval list \<Rightarrow> string list" where
  "json_dumps fr PNone = ''null''"
| "json_dumps fr (PBool b) = (if b then ''true'' else ''false'')"
| "json_dumps fr (PInt i) = str_int i"
| "json_dumps fr (PFloat r) = fr r"
| "json_dumps fr (PStr s) = json_str s"
| "json_dumps fr (PList xs) = ''['' @ join_comma (json_list fr xs) @ '']''"
| "json_dumps fr (PDict d) = ''{'' @ join_comma (json_items fr d) @ ''}''"
| "json_items fr [] = []"
| "json_items fr ((k, v) # d) = (json_str k @ '': '' @ json_dumps fr v) # json_items fr d"
| "json_list fr [] = []"
| "json_list fr (x # xs) = json_dumps fr x # json_list fr xs"

subsection \<open>Truth values and numbers\<close>

text \<open>\<^verbatim>\<open>bool(v)\<close>, which \<^verbatim>\<open>not\<close> and \<^verbatim>\<open>or\<close> consult.\<close>

fun truthy :: "pyval \<Rightarrow> bool" where
  "truthy PNone = False"
| "truthy (PBool b) = b"
| "truthy (PInt i) = (i \<noteq> 0)"
| "truthy (PFloat r) = (r \<noteq> 0)"
| "truthy (PStr s) = (s \<noteq> [])"
| "truthy (PList xs) = (xs \<noteq> [])"
| "truthy (PDict d) = (d \<noteq> [])"

definition py_or :: "pyval \<Rightarrow> pyval \<Rightarrow> pyval" where
  "py_or a b = (if truthy a then a else b)"

text \<open>The value of a number; \<open>None\<close> for what is no number.\<close>

fun py_number :: "pyval \<Rightarrow> rat option" where
  "py_number (PBool b) = Some (if b then 1 else 0)"
| "py_number (PInt i) = Some (of_int i)"
| "py_number (PFloat r) = Some r"
| "py_number _ = None"

text \<open>
  \<^verbatim>\<open>int(s)\<close> on a string: white space around, an optional sign, decimal digits, single
  underscores between digits. The white space \<^verbatim>\<open>int\<close> skips is not all of \<^verbatim>\<open>str.isspace\<close>:
  the four separators \<^verbatim>\<open>\x1c\<close> to \<^verbatim>\<open>\x1f\<close> are not skipped.
\<close>

definition int_space :: "char \<Rightarrow> bool" where
  "int_space c \<longleftrightarrow> c \<in> set [CHR 0x09, CHR 0x0A, CHR 0x0B, CHR 0x0C, CHR 0x0D,
     CHR '' '', CHR 0x85, CHR 0xA0]"

definition is_digit :: "char \<Rightarrow> bool" where
  "is_digit c \<longleftrightarrow> c \<in> set ''0123456789''"

fun int_body :: "string \<Rightarrow> bool \<Rightarrow> nat \<Rightarrow> nat option" where
  "int_body [] after_digit acc = (if after_digit then Some acc else None)"
| "int_body (c # cs) after_digit acc =
     (if is_digit c then int_body cs True (acc * 10 + (of_char c - 48))
      else if c = CHR ''_'' \<and> after_digit \<and> cs \<noteq> [] \<and> is_digit (hd cs) then int_body cs False acc
      else None)"

definition int_of_str :: "string \<Rightarrow> int option" where
  "int_of_str s =
     (case rev (dropWhile int_space (rev (dropWhile int_space s))) of
        [] \<Rightarrow> None
      | c # cs \<Rightarrow>
          if c = CHR ''-'' then map_option (\<lambda>n. - int n) (int_body cs False 0)
          else if c = CHR ''+'' then map_option int (int_body cs False 0)
          else map_option int (int_body (c # cs) False 0))"

text \<open>\<^verbatim>\<open>int(v)\<close>; \<open>None\<close> when it raises \<^verbatim>\<open>TypeError\<close> or \<^verbatim>\<open>ValueError\<close>.\<close>

fun py_int :: "pyval \<Rightarrow> int option" where
  "py_int (PBool b) = Some (if b then 1 else 0)"
| "py_int (PInt i) = Some i"
| "py_int (PFloat r) = Some (if 0 \<le> r then \<lfloor>r\<rfloor> else \<lceil>r\<rceil>)"
| "py_int (PStr s) = int_of_str s"
| "py_int _ = None"

section \<open>The environment of a run\<close>

text \<open>
  What the interpreter and the operating system decide, and the program only calls:
  \<^item> \<open>fromtimestamp\<close>: \<^verbatim>\<open>datetime.datetime.fromtimestamp(ts)\<close> for a number \<open>ts\<close>, as local
    broken-down time; \<open>None\<close> when it raises;
  \<^item> \<open>strptime_timestamp\<close>: \<^verbatim>\<open>datetime.datetime.strptime(val, "%H:%M:%S %d/%m/%Y").timestamp()\<close>;
    \<open>None\<close> when either call raises;
  \<^item> \<open>float_repr\<close>: \<^verbatim>\<open>repr\<close> of a float;
  \<^item> \<open>format_2f\<close>: \<^verbatim>\<open>f"{float(v):.2f}"\<close>; \<open>None\<close> when \<^verbatim>\<open>float(v)\<close> raises;
  \<^item> \<open>set_order\<close>: the order in which a \<^verbatim>\<open>set\<close> built from the given keys is iterated (it
    changes with the hash seed of the run).
\<close>

record tm =
  tm_year :: nat
  tm_mon :: nat
  tm_mday :: nat
  tm_hour :: nat
  tm_min :: nat
  tm_sec :: nat

record env =
  fromtimestamp :: "rat \<Rightarrow> tm option"
  strptime_timestamp :: "string \<Rightarrow> int option"
  float_repr :: "rat \<Rightarrow> string"
  format_2f :: "pyval \<Rightarrow> string option"
  set_order :: "string list \<Rightarrow> string list"

text \<open>
  \<^verbatim>\<open>strftime("%d/%m/%Y %H:%M:%S")\<close>. Day, month, hour, minute and second have two digits;
  the C library's \<^verbatim>\<open>%Y\<close> does not pad, so the year has four digits from 1000 to 9999.
\<close>

definition strftime_date :: "tm \<Rightarrow> string" where
  "strftime_date t = zfill 2 (dec (tm_mday t)) @ ''/'' @ zfill 2 (dec (tm_mon t)) @ ''/'' @ dec (tm_year t)"

definition strftime_time :: "tm \<Rightarrow> string" where
  "strftime_time t = zfill 2 (dec (tm_hour t)) @ '':'' @ zfill 2 (dec (tm_min t)) @ '':'' @ zfill 2 (dec (tm_sec t))"

definition strftime :: "tm \<Rightarrow> string" where
  "strftime t = strftime_date t @ '' '' @ strftime_time t"

section \<open>The normalizer\<close>

text \<open>
  \<^verbatim>\<open>human_time\<close> (lines 13 to 19). \<^verbatim>\<open>ts == 0\<close> holds for \<^verbatim>\<open>0\<close>, \<^verbatim>\<open>0.0\<close> and \<^verbatim>\<open>False\<close>;
  \<^verbatim>\<open>fromtimestamp\<close> raises \<^verbatim>\<open>TypeError\<close> on what is no number; every exception ends in
  \<^verbatim>\<open>str(ts)\<close>.
\<close>

definition human_time :: "env \<Rightarrow> pyval \<Rightarrow> string" where
  "human_time E ts =
     (if ts = PNone \<or> py_number ts = Some 0 then ''-''
      else case py_number ts of
             None \<Rightarrow> py_str (float_repr E) ts
           | Some r \<Rightarrow>
               (case fromtimestamp E r of
                  None \<Rightarrow> py_str (float_repr E) ts
                | Some t \<Rightarrow> strftime t))"

text \<open>\<^verbatim>\<open>flatten_dict\<close> (lines 22 to 33), with \<^verbatim>\<open>sep='_'\<close>; \<open>flatten_items\<close> is its loop.\<close>

fun flatten_dict :: "(rat \<Rightarrow> string) \<Rightarrow> pydict \<Rightarrow> string \<Rightarrow> pydict"
  and flatten_items :: "(rat \<Rightarrow> string) \<Rightarrow> (string \<times> pyval) list \<Rightarrow> string \<Rightarrow> (string \<times> pyval) list" where
  "flatten_dict fr d parent_key = dict_of (flatten_items fr d parent_key)"
| "flatten_items fr [] parent_key = []"
| "flatten_items fr ((k, v) # rest) parent_key =
     (case v of
        PDict d' \<Rightarrow> flatten_dict fr d' (if parent_key \<noteq> [] then parent_key @ ''_'' @ k else k)
      | PList xs \<Rightarrow> [(if parent_key \<noteq> [] then parent_key @ ''_'' @ k else k, PStr (json_dumps fr v))]
      | _ \<Rightarrow> [(if parent_key \<noteq> [] then parent_key @ ''_'' @ k else k, v)])
     @ flatten_items fr rest parent_key"

text \<open>
  \<^verbatim>\<open>clean_name\<close> (lines 36 to 47). The character class of the regular expression is
  \<^verbatim>\<open>[^a-zA-Z0-9 _\.-]\<close>; \<^verbatim>\<open>re.sub\<close> raises \<^verbatim>\<open>TypeError\<close> on what is no string.
\<close>

definition name_char :: "char \<Rightarrow> bool" where
  "name_char c \<longleftrightarrow>
     c \<in> set ''abcdefghijklmnopqrstuvwxyzABCDEFGHIJKLMNOPQRSTUVWXYZ0123456789 _.-''"

definition clean_name :: "pyval \<Rightarrow> error + string" where
  "clean_name name =
     (if \<not> truthy name then Inr (ljust 35 [])
      else case name of
             PStr s \<Rightarrow>
               (let name1 = filter name_char s;
                    name2 = py_strip name1;
                    name3 = (if length name2 > 35 then take 35 name2 else name2)
                in Inr (ljust 35 name3))
           | _ \<Rightarrow> Inl TypeError)"

text \<open>
  \<^verbatim>\<open>normalize_node\<close> (lines 50 to 104), one definition for each block of the function.
  Lines 72 to 76: \<^verbatim>\<open>tmp[1]\<close> raises \<^verbatim>\<open>IndexError\<close> when the split has fewer than two parts.
\<close>

definition last_heard_block :: "env \<Rightarrow> pydict \<Rightarrow> pydict \<Rightarrow> error + pydict" where
  "last_heard_block E d flat =
     (case map_of d ''lastHeard'' of
        None \<Rightarrow> Inr flat
      | Some ts \<Rightarrow>
          (let flat1 = AList.update ''lastHeard_human'' (PStr (human_time E ts)) flat;
               tmp = py_split (human_time E ts)
           in case tmp of
                t0 # t1 # _ \<Rightarrow> Inr (AList.update ''lastHeard_human'' (PStr (t1 @ '' '' @ t0)) flat1)
              | _ \<Rightarrow> Inl IndexError))"

text \<open>
  Lines 78 to 87. A value of the model that is no dictionary has no attribute \<^verbatim>\<open>longName\<close>
  or \<^verbatim>\<open>shortName\<close>, so both \<^verbatim>\<open>getattr\<close> calls give their default \<^verbatim>\<open>None\<close>.
\<close>

definition name_block :: "pydict \<Rightarrow> pydict \<Rightarrow> error + pydict" where
  "name_block d flat =
     (case map_of d ''user'' of
        None \<Rightarrow> Inr (AList.update ''name'' (PStr (ljust 35 [])) flat)
      | Some u \<Rightarrow>
          (let name = (case u of
                         PDict ud \<Rightarrow> py_or (py_or (dict_get ud ''longName'' PNone)
                                                  (dict_get ud ''shortName'' PNone)) (PStr [])
                       | _ \<Rightarrow> py_or (py_or PNone PNone) (PStr []))
           in case clean_name name of
                Inl e \<Rightarrow> Inl e
              | Inr s \<Rightarrow> Inr (AList.update ''name'' (PStr s) flat)))"

text \<open>Lines 89 to 95.\<close>

definition via_hop_block :: "pydict \<Rightarrow> pydict" where
  "via_hop_block flat =
     (let hops = dict_get flat ''hopsAway'' PNone;
          hops_int = (if hops \<noteq> PNone then (case py_int hops of Some i \<Rightarrow> i | None \<Rightarrow> 0) else 0)
      in AList.update ''viaHop'' (PBool (hops_int > 0)) flat)"

text \<open>Lines 97 to 102.\<close>

definition snr_block :: "env \<Rightarrow> pydict \<Rightarrow> pydict" where
  "snr_block E flat =
     (case map_of flat ''snr'' of
        None \<Rightarrow> flat
      | Some v \<Rightarrow>
          AList.update ''snr'' (PStr (case format_2f E v of Some s \<Rightarrow> s | None \<Rightarrow> [])) flat)"

definition normalize_node :: "env \<Rightarrow> pydict \<Rightarrow> error + pydict" where
  "normalize_node E node =
     (let d = node;
          flat = flatten_dict (float_repr E) d []
      in case last_heard_block E d flat of
           Inl e \<Rightarrow> Inl e
         | Inr flat1 \<Rightarrow>
             (case name_block d flat1 of
                Inl e \<Rightarrow> Inl e
              | Inr flat2 \<Rightarrow> Inr (snr_block E (via_hop_block flat2))))"

section \<open>The table renderer\<close>

text \<open>
  \<^verbatim>\<open>print_table\<close> (lines 107 to 191). A snapshot is the dictionary \<^verbatim>\<open>nodes\<close>, from node
  number to node record, in insertion order; the function reads \<^verbatim>\<open>nodes.values()\<close> only.
  The result is the list of the lines printed, or the exception that ended the call: every
  \<^verbatim>\<open>print\<close> comes after the last statement that can raise.
\<close>

type_synonym snapshot = "(int \<times> pydict) list"

text \<open>The loop of lines 111 to 114; it ends at the first record that raises.\<close>

fun normalize_all :: "env \<Rightarrow> pydict list \<Rightarrow> error + pydict list" where
  "normalize_all E [] = Inr []"
| "normalize_all E (node # nodes) =
     (case normalize_node E node of
        Inl e \<Rightarrow> Inl e
      | Inr flat \<Rightarrow>
          (case normalize_all E nodes of
             Inl e \<Rightarrow> Inl e
           | Inr rows \<Rightarrow> Inr (flat # rows)))"

text \<open>Lines 117 to 121: \<^verbatim>\<open>int(r.get("hopsAway", 0))\<close>, and 0 when \<^verbatim>\<open>int\<close> raises.\<close>

definition hop_key :: "pydict \<Rightarrow> int" where
  "hop_key r = (case py_int (dict_get r ''hopsAway'' (PInt 0)) of Some i \<Rightarrow> i | None \<Rightarrow> 0)"

text \<open>
  Lines 125 to 135. A value that is no string has no \<^verbatim>\<open>strip\<close>: the \<^verbatim>\<open>AttributeError\<close> is
  caught and the key is 0. The parsed time has whole seconds, so the key is an integer.
\<close>

definition ts_key :: "env \<Rightarrow> pydict \<Rightarrow> int" where
  "ts_key E r =
     (case dict_get r ''lastHeard_human'' (PStr ''-'') of
        PStr val \<Rightarrow>
          if val = ''-'' \<or> py_strip val = [] then 0
          else (case strptime_timestamp E val of Some t \<Rightarrow> t | None \<Rightarrow> 0)
      | _ \<Rightarrow> 0)"

text \<open>
  Lines 116 to 136. \<^verbatim>\<open>list.sort\<close> is stable; with \<^verbatim>\<open>reverse=True\<close> it reverses the list,
  sorts it stably and reverses it again, so rows with equal keys keep their order.
\<close>

definition sort_rows :: "env \<Rightarrow> bool \<Rightarrow> pydict list \<Rightarrow> pydict list" where
  "sort_rows E sort_hop rows =
     (if sort_hop then sort_key hop_key rows
      else rev (sort_key (ts_key E) (rev rows)))"

text \<open>Lines 138 to 151. \<open>rows\<close> are the rows in the order the loop appended them; \<open>compact_flag\<close> is the
  parameter \<^verbatim>\<open>compact\<close>.\<close>

definition compact_headers :: "string list" where
  "compact_headers = [''#'', ''user_id'', ''user_hwModel'', ''name'', ''hopsAway'', ''snr'',
     ''position_latitude'', ''position_longitude'', ''lastHeard_human'']"

definition select_headers :: "env \<Rightarrow> bool \<Rightarrow> pydict list \<Rightarrow> string list" where
  "select_headers E compact_flag rows =
     (if compact_flag then compact_headers
      else ''#'' # sort (set_order E (concat (map (map fst) rows))))"

text \<open>\<^verbatim>\<open>str(r.get(h, ""))\<close>\<close>

definition cell_text :: "(rat \<Rightarrow> string) \<Rightarrow> pydict \<Rightarrow> string \<Rightarrow> string" where
  "cell_text fr r h = py_str fr (dict_get r h (PStr []))"

text \<open>Lines 154 to 163; \<^verbatim>\<open>max(..., default=0)\<close> is 0 on no rows.\<close>

definition max_default :: "nat list \<Rightarrow> nat" where
  "max_default ns = (case ns of [] \<Rightarrow> 0 | n # ns' \<Rightarrow> fold max ns' n)"

definition col_width :: "(rat \<Rightarrow> string) \<Rightarrow> pydict list \<Rightarrow> string \<Rightarrow> nat" where
  "col_width fr rows h =
     (if h = ''#'' then 5
      else if h = ''name'' then 35
      else (let maxlen = max_default (map (\<lambda>r. length (cell_text fr r h)) rows);
                header_len = length h
            in max maxlen header_len + 2))"

text \<open>Line 167.\<close>

definition header_line :: "(rat \<Rightarrow> string) \<Rightarrow> string list \<Rightarrow> pydict list \<Rightarrow> string" where
  "header_line fr headers rows = concat (map (\<lambda>h. ljust (col_width fr rows h) h) headers)"

text \<open>
  Lines 174 to 185. In the \<^verbatim>\<open>snr\<close> branch \<^verbatim>\<open>r[h]\<close> is \<^verbatim>\<open>r.get(h, "")\<close>, the key being present
  when the value differs from the default.
\<close>

definition row_cell :: "(rat \<Rightarrow> string) \<Rightarrow> pydict list \<Rightarrow> nat \<Rightarrow> pydict \<Rightarrow> string \<Rightarrow> string" where
  "row_cell fr rows idx r h =
     (if h = ''#'' then ljust (col_width fr rows h) (zfill 3 (dec idx))
      else if h = ''snr'' \<and> dict_get r h (PStr []) \<noteq> PStr []
        then ljust (col_width fr rows h) (py_str fr (dict_get r h (PStr [])) @ ''  '')
      else ljust (col_width fr rows h) (cell_text fr r h))"

definition row_line :: "(rat \<Rightarrow> string) \<Rightarrow> string list \<Rightarrow> pydict list \<Rightarrow> nat \<Rightarrow> pydict \<Rightarrow> string" where
  "row_line fr headers rows idx r = concat (map (row_cell fr rows idx r) headers)"

text \<open>Lines 188 to 191; \<^verbatim>\<open>\033\<close> is the escape character.\<close>

definition ansi_prefix :: string where
  "ansi_prefix = [CHR 0x1B] @ ''[42m'' @ [CHR 0x1B] @ ''[97m''"

definition ansi_suffix :: string where
  "ansi_suffix = [CHR 0x1B] @ ''[0m''"

definition highlighted :: "(rat \<Rightarrow> string) \<Rightarrow> pydict \<Rightarrow> bool" where
  "highlighted fr r \<longleftrightarrow>
     py_str fr (dict_get r ''hopsAway'' (PStr ''0'')) = ''0'' \<and> dict_get r ''snr'' (PStr []) \<noteq> PStr []"

definition printed_line :: "(rat \<Rightarrow> string) \<Rightarrow> string list \<Rightarrow> pydict list \<Rightarrow> nat \<times> pydict \<Rightarrow> string" where
  "printed_line fr headers rows ir =
     (let line = row_line fr headers rows (fst ir) (snd ir)
      in if highlighted fr (snd ir) then ansi_prefix @ line @ ansi_suffix else line)"

definition print_table :: "env \<Rightarrow> snapshot \<Rightarrow> bool \<Rightarrow> bool \<Rightarrow> error + string list" where
  "print_table E nodes compact_flag sort_hop =
     (case normalize_all E (map snd nodes) of
        Inl e \<Rightarrow> Inl e
      | Inr rows0 \<Rightarrow>
          (let rows = sort_rows E sort_hop rows0;
               headers = select_headers E compact_flag rows0;
               hl = header_line (float_repr E) headers rows
           in Inr ([[], hl, replicate (length hl) CHR ''=''] @
                   map (printed_line (float_repr E) headers rows) (List.enumerate 1 rows))))"

section \<open>A reference environment\<close>

text \<open>
  The environment of a host whose local time is UTC, for running the model on examples. Days
  are turned into dates and back with the usual era arithmetic on the proleptic Gregorian
  calendar. The parser reads fields of one or two digits and a year of four, and rejects what
  the \<^verbatim>\<open>datetime\<close> constructor rejects. A time is rounded to microseconds, half to even,
  before its seconds are read. Floats are printed in fixed notation, which is what CPython
  prints for numbers below \<open>10\<^sup>1\<^sup>6\<close> with at most two decimal places; \<^verbatim>\<open>float\<close> of a string is
  taken to raise.
\<close>

definition civil_from_days :: "int \<Rightarrow> int \<times> int \<times> int" where
  "civil_from_days z =
     (let z1 = z + 719468;
          era = z1 div 146097;
          doe = z1 - era * 146097;
          yoe = (doe - doe div 1460 + doe div 36524 - doe div 146096) div 365;
          doy = doe - (365 * yoe + yoe div 4 - yoe div 100);
          mp = (5 * doy + 2) div 153;
          d = doy - (153 * mp + 2) div 5 + 1;
          m = (if mp < 10 then mp + 3 else mp - 9);
          y = yoe + era * 400 + (if m \<le> 2 then 1 else 0)
      in (y, m, d))"

definition days_from_civil :: "int \<Rightarrow> int \<Rightarrow> int \<Rightarrow> int" where
  "days_from_civil y m d =
     (let y1 = (if m \<le> 2 then y - 1 else y);
          era = y1 div 400;
          yoe = y1 - era * 400;
          doy = (153 * (if m > 2 then m - 3 else m + 9) + 2) div 5 + d - 1;
          doe = yoe * 365 + yoe div 4 - yoe div 100 + doy
      in era * 146097 + doe - 719468)"

definition round_half_even :: "rat \<Rightarrow> int" where
  "round_half_even q =
     (let f = \<lfloor>q\<rfloor>; r = q - of_int f
      in if r < 1 / 2 then f else if r > 1 / 2 then f + 1 else if even f then f else f + 1)"

definition utc_fromtimestamp :: "rat \<Rightarrow> tm option" where
  "utc_fromtimestamp ts =
     (let s = round_half_even (ts * 1000000) div 1000000;
          days = s div 86400;
          secs = s mod 86400
      in case civil_from_days days of
           (y, m, d) \<Rightarrow>
             if 1 \<le> y \<and> y \<le> 9999
             then Some \<lparr>tm_year = nat y, tm_mon = nat m, tm_mday = nat d,
                        tm_hour = nat (secs div 3600), tm_min = nat (secs mod 3600 div 60),
                        tm_sec = nat (secs mod 60)\<rparr>
             else None)"

fun split_on :: "char \<Rightarrow> string \<Rightarrow> string \<Rightarrow> string list" where
  "split_on c cur [] = [cur]"
| "split_on c cur (x # xs) = (if x = c then cur # split_on c [] xs else split_on c (cur @ [x]) xs)"

definition digits_value :: "string \<Rightarrow> nat" where
  "digits_value s = foldl (\<lambda>acc c. acc * 10 + (of_char c - 48)) 0 s"

definition num_field :: "nat \<Rightarrow> nat \<Rightarrow> string \<Rightarrow> nat option" where
  "num_field lo hi s =
     (if (length s = 1 \<or> length s = 2) \<and> list_all is_digit s
         \<and> lo \<le> digits_value s \<and> digits_value s \<le> hi
      then Some (digits_value s) else None)"

definition year_field :: "string \<Rightarrow> nat option" where
  "year_field s = (if length s = 4 \<and> list_all is_digit s \<and> 1 \<le> digits_value s
                   then Some (digits_value s) else None)"

definition days_in_month :: "nat \<Rightarrow> nat \<Rightarrow> nat" where
  "days_in_month y m =
     (if m = 2 then (if y mod 4 = 0 \<and> (y mod 100 \<noteq> 0 \<or> y mod 400 = 0) then 29 else 28)
      else if m = 4 \<or> m = 6 \<or> m = 9 \<or> m = 11 then 30 else 31)"

definition utc_strptime_timestamp :: "string \<Rightarrow> int option" where
  "utc_strptime_timestamp val =
     (if val = [] \<or> py_isspace (hd val) \<or> py_isspace (last val) then None
      else case py_split val of
        [t, d] \<Rightarrow>
          (case (map (num_field 0 59) (split_on CHR '':'' [] t), split_on CHR ''/'' [] d) of
             ([Some H, Some M, Some S], [dd, mm, yy]) \<Rightarrow>
               (case (num_field 1 31 dd, num_field 1 12 mm, year_field yy) of
                  (Some D, Some Mo, Some Y) \<Rightarrow>
                    if H \<le> 23 \<and> D \<le> days_in_month Y Mo
                    then Some (days_from_civil (int Y) (int Mo) (int D) * 86400
                               + int H * 3600 + int M * 60 + int S)
                    else None
                | _ \<Rightarrow> None)
           | _ \<Rightarrow> None)
      | _ \<Rightarrow> None)"

definition fixed_2f :: "rat \<Rightarrow> string" where
  "fixed_2f r =
     (let n = nat (round_half_even (\<bar>r\<bar> * 100));
          s = dec (n div 100) @ ''.'' @ zfill 2 (dec (n mod 100))
      in if r < 0 then CHR ''-'' # s else s)"

definition fixed_repr :: "rat \<Rightarrow> string" where
  "fixed_repr r =
     (let n = nat (round_half_even (\<bar>r\<bar> * 100));
          frac = (if n mod 10 = 0 then dec (n mod 100 div 10) else zfill 2 (dec (n mod 100)));
          s = dec (n div 100) @ ''.'' @ frac
      in if r < 0 then CHR ''-'' # s else s)"

definition utc_format_2f :: "pyval \<Rightarrow> string option" where
  "utc_format_2f v = (case v of PStr s \<Rightarrow> None | _ \<Rightarrow> map_option fixed_2f (py_number v))"

definition utc_env :: env where
  "utc_env = \<lparr>fromtimestamp = utc_fromtimestamp,
              strptime_timestamp = utc_strptime_timestamp,
              float_repr = fixed_repr,
              format_2f = utc_format_2f,
              set_order = remdups\<rparr>"

subsection \<open>Example records\<close>

text \<open>
  \<open>node_a\<close> and \<open>node_b\<close> are the two nodes of the specification's end-to-end scenario (the
  signal-to-noise ratio is 5.75, a number that is a double); \<open>node_c\<close> has never been heard;
  \<open>node_d\<close> was last heard a day before the epoch.
\<close>

definition node_a :: pydict where
  "node_a = [(''num'', PInt 1),
     (''user'', PDict [(''id'', PStr ''!a1''), (''longName'', PStr ''Alice Station!!'')]),
     (''lastHeard'', PInt 1700000000), (''hopsAway'', PInt 0), (''snr'', PFloat (23 / 4))]"

definition node_b :: pydict where
  "node_b = [(''num'', PInt 2), (''user'', PDict [(''shortName'', PStr ''BOB'')]),
     (''lastHeard'', PInt 0), (''hopsAway'', PInt 2)]"

definition node_c :: pydict where
  "node_c = [(''num'', PInt 3), (''user'', PDict [(''shortName'', PStr ''CAT'')]),
     (''hopsAway'', PInt 1)]"

definition node_d :: pydict where
  "node_d = [(''num'', PInt 4), (''lastHeard'', PInt (- 86400))]"

definition row_a :: pydict where
  "row_a = [(''num'', PInt 1), (''user_id'', PStr ''!a1''),
     (''user_longName'', PStr ''Alice Station!!''), (''lastHeard'', PInt 1700000000),
     (''hopsAway'', PInt 0), (''snr'', PStr ''5.75''),
     (''lastHeard_human'', PStr ''22:13:20 14/11/2023''),
     (''name'', PStr ''Alice Station                      ''), (''viaHop'', PBool False)]"

definition row_c :: pydict where
  "row_c = [(''num'', PInt 3), (''user_shortName'', PStr ''CAT''), (''hopsAway'', PInt 1),
     (''name'', PStr ''CAT                                ''), (''viaHop'', PBool True)]"

definition row_d :: pydict where
  "row_d = [(''num'', PInt 4), (''lastHeard'', PInt (- 86400)),
     (''lastHeard_human'', PStr ''00:00:00 31/12/1969''),
     (''name'', PStr ''                                   ''), (''viaHop'', PBool False)]"

definition snapshot_c_a :: snapshot where
  "snapshot_c_a = [(3, node_c), (1, node_a)]"

definition snapshot_d_c :: snapshot where
  "snapshot_d_c = [(4, node_d), (3, node_c)]"

section \<open>Notions used to state the properties\<close>

text \<open>
  The cleaning of a name as the specification words it: keep the ASCII letters, the digits,
  space, underscore, hyphen and period; trim; cut to 35 characters; pad to 35.
\<close>

definition spec_name_char :: "char \<Rightarrow> bool" where
  "spec_name_char c \<longleftrightarrow>
     (let n = of_char c :: nat
      in (65 \<le> n \<and> n \<le> 90) \<or> (97 \<le> n \<and> n \<le> 122) \<or> (48 \<le> n \<and> n \<le> 57)
         \<or> c = CHR '' '' \<or> c = CHR ''_'' \<or> c = CHR ''-'' \<or> c = CHR ''.'')"

definition clean_name_spec :: "string \<Rightarrow> string" where
  "clean_name_spec raw = ljust 35 (take 35 (py_strip (filter spec_name_char raw)))"

text \<open>A printed line without the escape sequences around it, when it has them.\<close>

definition strip_ansi :: "string \<Rightarrow> string" where
  "strip_ansi l =
     (if take (length ansi_prefix) l = ansi_prefix
         \<and> length ansi_prefix + length ansi_suffix \<le> length l
         \<and> drop (length l - length ansi_suffix) l = ansi_suffix
      then take (length l - length ansi_prefix - length ansi_suffix) (drop (length ansi_prefix) l)
      else l)"

section \<open>Auxiliary facts\<close>

subsection \<open>Strings and numbers\<close>

lemma length_ljust: "length (ljust n s) = max n (length s)"
  by (simp add: ljust_def)

lemma length_zfill: "length (zfill n s) = max n (length s)"
  by (simp add: zfill_def)

lemma dec_nonempty: "dec n \<noteq> []"
  by (subst dec.simps) simp

lemma digit_nth: "d < 10 \<Longrightarrow> ''0123456789'' ! d \<in> set ''0123456789''"
  by (rule nth_mem) simp

lemma dec_digits: "set (dec n) \<subseteq> set ''0123456789''"
proof (induction n rule: dec.induct)
  case (1 n)
  show ?case
  proof (cases "n < 10")
    case True
    then show ?thesis using digit_nth [of n] by (subst dec.simps) simp
  next
    case False
    have "n mod 10 < 10" by simp
    then have "''0123456789'' ! (n mod 10) \<in> set ''0123456789''" by (rule digit_nth)
    with False 1 show ?thesis by (subst dec.simps) simp
  qed
qed

lemma length_dec: "0 < k \<Longrightarrow> n < 10 ^ k \<Longrightarrow> length (dec n) \<le> k"
proof (induction n arbitrary: k rule: dec.induct)
  case (1 n)
  show ?case
  proof (cases "n < 10")
    case True
    then show ?thesis using 1(2) by (subst dec.simps) simp
  next
    case False
    then have "1 < k" using 1(2,3)
      by (metis One_nat_def Suc_lessI power_one_right)
    then obtain k' where k: "k = Suc k'" and k': "0 < k'" by (cases k) auto
    have "n div 10 < 10 ^ k'" using 1(3) k by (simp add: less_mult_imp_div_less mult.commute)
    then have "length (dec (n div 10)) \<le> k'" using 1(1) False k' by simp
    with False k show ?thesis by (subst dec.simps) simp
  qed
qed

lemma name_char_spec: "name_char c = spec_name_char c"
  by (cases c) (simp add: name_char_def spec_name_char_def; fastforce)

lemma clean_name_str: "clean_name (PStr raw) = Inr (clean_name_spec raw)"
  by (simp add: clean_name_def clean_name_spec_def Let_def name_char_spec [abs_def])
    (auto simp: ljust_def py_strip_def)

lemma length_clean_name_spec: "length (clean_name_spec raw) = 35"
  by (simp add: clean_name_spec_def length_ljust)

subsection \<open>Splitting the rendered time\<close>

lemma split_run_nonspace:
  "\<forall>c\<in>set a. \<not> py_isspace c \<Longrightarrow> split_run cur (a @ rest) = split_run (cur @ a) rest"
  by (induction a arbitrary: cur) auto

lemma py_split_two:
  assumes "\<forall>c\<in>set a. \<not> py_isspace c" "\<forall>c\<in>set b. \<not> py_isspace c" "a \<noteq> []" "b \<noteq> []"
  shows "py_split (a @ '' '' @ b) = [a, b]"
proof -
  have "split_run [] (a @ (CHR '' '' # b)) = split_run a (CHR '' '' # b)"
    using split_run_nonspace [OF assms(1), of "[]"] by simp
  also have "\<dots> = a # split_run [] b"
    using assms(3) by (simp add: py_isspace_def)
  also have "split_run [] b = split_run b []"
    using split_run_nonspace [OF assms(2), of "[]" "[]"] by simp
  finally show ?thesis using assms(4) by (simp add: py_split_def)
qed

lemma zfill_no_space: "\<forall>c\<in>set (zfill k (dec n)). \<not> py_isspace c"
  using dec_digits [of n] by (auto simp: zfill_def py_isspace_def)

lemma dec_no_space: "\<forall>c\<in>set (dec n). \<not> py_isspace c"
  using dec_digits [of n] by (auto simp: py_isspace_def)

lemma strftime_date_no_space: "\<forall>c\<in>set (strftime_date t). \<not> py_isspace c"
proof -
  have "set (strftime_date t) \<subseteq> set (zfill 2 (dec (tm_mday t))) \<union> set (zfill 2 (dec (tm_mon t)))
      \<union> set (dec (tm_year t)) \<union> {CHR ''/''}"
    by (auto simp: strftime_date_def)
  moreover have "\<not> py_isspace CHR ''/''" by (simp add: py_isspace_def)
  ultimately show ?thesis
    using zfill_no_space [of 2 "tm_mday t"] zfill_no_space [of 2 "tm_mon t"]
      dec_no_space [of "tm_year t"]
    by blast
qed

lemma strftime_time_no_space: "\<forall>c\<in>set (strftime_time t). \<not> py_isspace c"
  using zfill_no_space by (auto simp: strftime_time_def py_isspace_def)

lemma py_split_strftime: "py_split (strftime t) = [strftime_date t, strftime_time t]"
  unfolding strftime_def
  by (rule py_split_two)
    (simp_all add: strftime_date_no_space strftime_time_no_space strftime_date_def strftime_time_def)

subsection \<open>The blocks of the normalizer\<close>

lemma human_time_number:
  "py_number ts = Some r \<Longrightarrow> r \<noteq> 0 \<Longrightarrow> fromtimestamp E r = Some t \<Longrightarrow> human_time E ts = strftime t"
  by (auto simp: human_time_def)

lemma last_heard_block_absent:
  "map_of d ''lastHeard'' = None \<Longrightarrow> last_heard_block E d flat = Inr flat"
  by (simp add: last_heard_block_def)

lemma last_heard_block_number:
  assumes "map_of d ''lastHeard'' = Some ts" "py_number ts = Some r" "r \<noteq> 0"
    "fromtimestamp E r = Some t"
  shows "last_heard_block E d flat =
    Inr (AList.update ''lastHeard_human'' (PStr (strftime_time t @ '' '' @ strftime_date t))
          (AList.update ''lastHeard_human'' (PStr (strftime t)) flat))"
  using assms by (simp add: last_heard_block_def human_time_number py_split_strftime)

lemma map_of_name_block:
  "name_block d flat = Inr flat' \<Longrightarrow> k \<noteq> ''name'' \<Longrightarrow> map_of flat' k = map_of flat k"
  by (auto simp: name_block_def update_conv' Let_def split: option.splits sum.splits)

lemma map_of_via_hop_block: "k \<noteq> ''viaHop'' \<Longrightarrow> map_of (via_hop_block flat) k = map_of flat k"
  by (simp add: via_hop_block_def update_conv' Let_def)

lemma map_of_snr_block: "k \<noteq> ''snr'' \<Longrightarrow> map_of (snr_block E flat) k = map_of flat k"
  by (simp add: snr_block_def update_conv' split: option.splits)

lemma normalize_node_cases:
  assumes "normalize_node E node = Inr row"
  obtains flat1 flat2 where
    "last_heard_block E node (flatten_dict (float_repr E) node []) = Inr flat1"
    "name_block node flat1 = Inr flat2"
    "row = snr_block E (via_hop_block flat2)"
  using assms by (auto simp: normalize_node_def Let_def split: sum.splits)

lemma name_block_error: "name_block d flat = Inl e \<Longrightarrow> e = TypeError"
  by (auto simp: name_block_def clean_name_def Let_def split: option.splits sum.splits if_splits pyval.splits)

lemma normalize_node_IndexError:
  "normalize_node E node = Inl IndexError \<Longrightarrow>
   last_heard_block E node (flatten_dict (float_repr E) node []) = Inl IndexError"
  by (auto simp: normalize_node_def Let_def split: sum.splits dest: name_block_error)

lemma clean_name_length: "clean_name v = Inr s \<Longrightarrow> length s = 35"
proof (cases "truthy v")
  case False
  moreover assume "clean_name v = Inr s"
  ultimately show ?thesis by (auto simp: clean_name_def length_ljust)
next
  case True
  assume a: "clean_name v = Inr s"
  with True obtain raw where "v = PStr raw"
    by (cases v) (auto simp: clean_name_def)
  with a show ?thesis using length_clean_name_spec [of raw] by (simp add: clean_name_str)
qed

lemma name_block_name:
  "name_block d flat = Inr flat' \<Longrightarrow> \<exists>s. map_of flat' ''name'' = Some (PStr s) \<and> length s = 35"
  by (auto simp: name_block_def update_conv' Let_def length_ljust clean_name_length
      split: option.splits sum.splits)

lemma normalize_node_name:
  assumes "normalize_node E node = Inr row"
  shows "\<exists>s. map_of row ''name'' = Some (PStr s) \<and> length s = 35"
proof -
  from assms obtain flat1 flat2 where
    b2: "name_block node flat1 = Inr flat2" and row: "row = snr_block E (via_hop_block flat2)"
    by (rule normalize_node_cases)
  have "map_of row ''name'' = map_of flat2 ''name''"
    by (simp add: row map_of_snr_block map_of_via_hop_block)
  with name_block_name [OF b2] show ?thesis by simp
qed

subsection \<open>The loop over the snapshot\<close>

lemma normalize_all_length: "normalize_all E ns = Inr rows \<Longrightarrow> length rows = length ns"
  by (induction ns arbitrary: rows) (auto split: sum.splits)

lemma normalize_all_total:
  "\<forall>n\<in>set ns. \<exists>row. normalize_node E n = Inr row \<Longrightarrow> \<exists>rows. normalize_all E ns = Inr rows"
  by (induction ns) auto

lemma normalize_all_member:
  "normalize_all E ns = Inr rows \<Longrightarrow> r \<in> set rows \<Longrightarrow> \<exists>n\<in>set ns. normalize_node E n = Inr r"
  by (induction ns arbitrary: rows) (auto split: sum.splits)

subsection \<open>Sorting\<close>

lemma length_sort_rows: "length (sort_rows E s rows) = length rows"
  by (simp add: sort_rows_def)

lemma set_sort_rows: "set (sort_rows E s rows) = set rows"
  by (simp add: sort_rows_def)

lemma mset_sort_rows: "mset (sort_rows E s rows) = mset rows"
  by (simp add: sort_rows_def)

lemma sorted_hop: "sorted (map hop_key (sort_rows E True rows))"
  by (simp add: sort_rows_def)

lemma sorted_ts: "sorted_wrt (\<lambda>a b. ts_key E b \<le> ts_key E a) (sort_rows E False rows)"
proof -
  have "sorted (map (ts_key E) (sort_key (ts_key E) (rev rows)))" by simp
  then have "sorted_wrt (\<lambda>a b. ts_key E a \<le> ts_key E b) (sort_key (ts_key E) (rev rows))"
    by (simp add: sorted_map)
  then show ?thesis
    by (simp add: sort_rows_def sorted_wrt_rev)
qed

lemma py_strip_empty: "py_strip v = [] \<longleftrightarrow> (\<forall>c\<in>set v. py_isspace c)"
proof
  assume "py_strip v = []"
  then have a: "\<forall>c\<in>set (dropWhile py_isspace v). py_isspace c"
    unfolding py_strip_def by (simp only: rev_is_Nil_conv dropWhile_eq_Nil_conv set_rev)
  have "dropWhile py_isspace v = []"
  proof (rule ccontr)
    assume ne: "dropWhile py_isspace v \<noteq> []"
    then have "\<not> py_isspace (hd (dropWhile py_isspace v))" by (rule hd_dropWhile)
    moreover have "hd (dropWhile py_isspace v) \<in> set (dropWhile py_isspace v)"
      using ne by (rule hd_in_set)
    ultimately show False using a by blast
  qed
  then show "\<forall>c\<in>set v. py_isspace c" by (simp only: dropWhile_eq_Nil_conv)
next
  assume "\<forall>c\<in>set v. py_isspace c"
  then have "dropWhile py_isspace v = []" by (simp only: dropWhile_eq_Nil_conv)
  then show "py_strip v = []" by (simp only: py_strip_def rev.simps dropWhile.simps)
qed

lemma ts_key_rule:
  "ts_key E r =
     (case map_of r ''lastHeard_human'' of
        None \<Rightarrow> 0
      | Some (PStr v) \<Rightarrow>
          if v = ''-'' \<or> (\<forall>c\<in>set v. py_isspace c) then 0
          else (case strptime_timestamp E v of None \<Rightarrow> 0 | Some t \<Rightarrow> t)
      | Some _ \<Rightarrow> 0)"
  by (simp add: ts_key_def dict_get_def py_strip_empty split: option.splits pyval.splits)

lemma hop_key_rule:
  "hop_key r =
     (case map_of r ''hopsAway'' of
        None \<Rightarrow> 0
      | Some v \<Rightarrow> (case py_int v of None \<Rightarrow> 0 | Some i \<Rightarrow> i))"
  by (simp add: hop_key_def dict_get_def split: option.splits)

subsection \<open>Column widths and cells\<close>

lemma fold_max_Max: "fold max ns (n::nat) = Max (insert n (set ns))"
  by (simp add: Max.set_eq_fold [symmetric])

lemma max_default_Max: "max_default ns = Max (insert 0 (set ns))"
proof (cases ns)
  case Nil
  then show ?thesis by (simp add: max_default_def)
next
  case (Cons n ns')
  have "Max (insert 0 (insert n (set ns'))) = max 0 (Max (insert n (set ns')))"
    by (rule Max_insert) simp_all
  then show ?thesis using Cons by (simp add: max_default_def fold_max_Max)
qed

lemma max_default_ge: "n \<in> set ns \<Longrightarrow> n \<le> max_default ns"
  by (simp add: max_default_Max)

lemma cell_text_le_width:
  assumes "r \<in> set rows" "h \<noteq> ''#''" "h \<noteq> ''name''"
  shows "length (cell_text fr r h) + 2 \<le> col_width fr rows h"
proof -
  have "length (cell_text fr r h) \<in> set (map (\<lambda>r. length (cell_text fr r h)) rows)"
    using assms(1) by simp
  then have "length (cell_text fr r h) \<le> max_default (map (\<lambda>r. length (cell_text fr r h)) rows)"
    by (rule max_default_ge)
  then show ?thesis using assms(2,3) by (simp add: col_width_def Let_def)
qed

lemma header_le_width: "length h \<le> col_width fr rows h"
  by (auto simp: col_width_def Let_def)

lemma length_header_line:
  "length (header_line fr hs rows) = sum_list (map (col_width fr rows) hs)"
  by (induction hs) (simp_all add: header_line_def length_ljust max_absorb1 header_le_width)

lemma length_row_cell:
  assumes "r \<in> set rows" "idx < 100000"
    "\<exists>s. map_of r ''name'' = Some (PStr s) \<and> length s = 35"
  shows "length (row_cell fr rows idx r h) = col_width fr rows h"
proof -
  consider (idx) "h = ''#''" | (name) "h = ''name''" | (other) "h \<noteq> ''#''" "h \<noteq> ''name''"
    by blast
  then show ?thesis
  proof cases
    case idx
    have "length (dec idx) \<le> 5" using assms(2) by (intro length_dec) simp_all
    then show ?thesis using idx
      by (simp add: row_cell_def length_ljust length_zfill col_width_def)
  next
    case name
    from assms(3) have "length (cell_text fr r ''name'') = 35"
      by (auto simp: cell_text_def dict_get_def py_str_def)
    then show ?thesis using name
      by (simp add: row_cell_def length_ljust col_width_def)
  next
    case other
    have "length (cell_text fr r h) + 2 \<le> col_width fr rows h"
      by (rule cell_text_le_width [OF assms(1) other])
    then show ?thesis using other
      by (auto simp: row_cell_def length_ljust cell_text_def max_def)
  qed
qed

lemma length_row_line:
  assumes "r \<in> set rows" "idx < 100000"
    "\<exists>s. map_of r ''name'' = Some (PStr s) \<and> length s = 35"
  shows "length (row_line fr hs rows idx r) = sum_list (map (col_width fr rows) hs)"
  by (induction hs) (simp_all add: row_line_def length_row_cell [OF assms])

subsection \<open>The first character of a data line\<close>

lemma hd_zfill_dec: "hd (zfill 3 (dec idx)) \<in> set ''0123456789''"
proof (cases "3 - length (dec idx)")
  case 0
  then have "zfill 3 (dec idx) = dec idx" by (simp add: zfill_def)
  moreover have "hd (dec idx) \<in> set (dec idx)" using dec_nonempty by simp
  ultimately show ?thesis using dec_digits [of idx] by auto
next
  case (Suc k)
  then show ?thesis by (simp add: zfill_def)
qed

lemma headers_start: "\<exists>hs. select_headers E c rows = ''#'' # hs"
  by (simp add: select_headers_def compact_headers_def)

lemma row_line_start:
  "row_line fr (''#'' # hs) rows idx r \<noteq> [] \<and> hd (row_line fr (''#'' # hs) rows idx r) \<noteq> CHR 0x1B"
proof -
  have ne: "zfill 3 (dec idx) \<noteq> []" using dec_nonempty by (simp add: zfill_def)
  then have "hd (row_line fr (''#'' # hs) rows idx r) = hd (zfill 3 (dec idx))"
    by (simp add: row_line_def row_cell_def ljust_def)
  moreover have "hd (zfill 3 (dec idx)) \<noteq> CHR 0x1B" using hd_zfill_dec [of idx] by auto
  ultimately show ?thesis using ne by (simp add: row_line_def row_cell_def ljust_def)
qed

lemma strip_ansi_wrapped: "strip_ansi (ansi_prefix @ line @ ansi_suffix) = line"
  by (simp add: strip_ansi_def)

lemma strip_ansi_plain: "line = [] \<or> hd line \<noteq> CHR 0x1B \<Longrightarrow> strip_ansi line = line"
  by (cases line) (auto simp: strip_ansi_def ansi_prefix_def)

lemma not_wrapped_plain:
  "line \<noteq> [] \<Longrightarrow> hd line \<noteq> CHR 0x1B \<Longrightarrow> line \<noteq> ansi_prefix @ body @ ansi_suffix"
  by (cases line) (auto simp: ansi_prefix_def)

subsection \<open>The lines of a table\<close>

lemma print_table_Inr:
  assumes "normalize_all E (map snd nodes) = Inr rows0"
  shows "print_table E nodes c s =
     Inr ([] # header_line (float_repr E) (select_headers E c rows0) (sort_rows E s rows0)
          # replicate (length (header_line (float_repr E) (select_headers E c rows0) (sort_rows E s rows0))) CHR ''=''
          # map (printed_line (float_repr E) (select_headers E c rows0) (sort_rows E s rows0))
              (List.enumerate 1 (sort_rows E s rows0)))"
  using assms by (simp add: print_table_def Let_def)

lemma print_table_Inr_rows:
  assumes "print_table E nodes c s = Inr out"
  obtains rows0 where "normalize_all E (map snd nodes) = Inr rows0"
  using assms by (cases "normalize_all E (map snd nodes)") (auto simp: print_table_def)

lemma print_table_data_lines:
  assumes "normalize_all E (map snd nodes) = Inr rows0" "print_table E nodes c s = Inr out"
  shows "drop 3 out = map (printed_line (float_repr E) (select_headers E c rows0) (sort_rows E s rows0))
              (List.enumerate 1 (sort_rows E s rows0))"
    and "out ! 1 = header_line (float_repr E) (select_headers E c rows0) (sort_rows E s rows0)"
    and "length out = 3 + length nodes"
  using assms normalize_all_length [OF assms(1)]
  by (auto simp: print_table_Inr [OF assms(1)] length_sort_rows)

lemma print_table_line_nth:
  assumes "normalize_all E (map snd nodes) = Inr rows0" "print_table E nodes c s = Inr out"
    "i < length nodes"
  shows "out ! (3 + i) = printed_line (float_repr E) (select_headers E c rows0) (sort_rows E s rows0)
           (Suc i, sort_rows E s rows0 ! i)"
proof -
  have len: "length rows0 = length nodes" using normalize_all_length [OF assms(1)] by simp
  have "out ! (3 + i) = drop 3 out ! i"
    using print_table_data_lines(3) [OF assms(1,2)] assms(3) by simp
  also have "\<dots> = printed_line (float_repr E) (select_headers E c rows0) (sort_rows E s rows0)
           (List.enumerate 1 (sort_rows E s rows0) ! i)"
    using assms(3) len by (simp add: print_table_data_lines(1) [OF assms(1,2)] length_sort_rows)
  also have "List.enumerate 1 (sort_rows E s rows0) ! i = (Suc i, sort_rows E s rows0 ! i)"
    using assms(3) len by (simp add: nth_enumerate_eq length_sort_rows)
  finally show ?thesis .
qed

lemma sorted_rows_normalized:
  assumes "normalize_all E ns = Inr rows0" "i < length ns"
  shows "sort_rows E s rows0 ! i \<in> set (sort_rows E s rows0)"
    and "\<exists>str. map_of (sort_rows E s rows0 ! i) ''name'' = Some (PStr str) \<and> length str = 35"
proof -
  have len: "i < length (sort_rows E s rows0)"
    using assms normalize_all_length [OF assms(1)] by (simp add: length_sort_rows)
  then show m: "sort_rows E s rows0 ! i \<in> set (sort_rows E s rows0)" by (rule nth_mem)
  then have "sort_rows E s rows0 ! i \<in> set rows0" by (simp add: set_sort_rows)
  then obtain n where "normalize_node E n = Inr (sort_rows E s rows0 ! i)"
    using normalize_all_member [OF assms(1)] by blast
  then show "\<exists>str. map_of (sort_rows E s rows0 ! i) ''name'' = Some (PStr str) \<and> length str = 35"
    by (rule normalize_node_name)
qed

subsection \<open>The iteration order of the key set\<close>

lemma human_time_set_order: "human_time (E\<lparr>set_order := ord\<rparr>) ts = human_time E ts"
  by (simp add: human_time_def cong: option.case_cong)

lemma last_heard_block_set_order:
  "last_heard_block (E\<lparr>set_order := ord\<rparr>) d flat = last_heard_block E d flat"
  by (simp add: last_heard_block_def human_time_set_order cong: option.case_cong)

lemma snr_block_set_order: "snr_block (E\<lparr>set_order := ord\<rparr>) flat = snr_block E flat"
  by (simp add: snr_block_def cong: option.case_cong)

lemma normalize_node_set_order: "normalize_node (E\<lparr>set_order := ord\<rparr>) node = normalize_node E node"
  by (simp add: normalize_node_def last_heard_block_set_order snr_block_set_order
      cong: sum.case_cong)

lemma normalize_all_set_order: "normalize_all (E\<lparr>set_order := ord\<rparr>) ns = normalize_all E ns"
  by (induction ns) (simp_all add: normalize_node_set_order cong: sum.case_cong)

lemma sort_rows_set_order: "sort_rows (E\<lparr>set_order := ord\<rparr>) s rows = sort_rows E s rows"
proof -
  have "ts_key (E\<lparr>set_order := ord\<rparr>) = ts_key E"
    by (rule ext) (simp add: ts_key_def split: pyval.splits)
  then show ?thesis by (simp add: sort_rows_def)
qed

lemma select_headers_orders:
  assumes "set (o1 ks) = set ks" "distinct (o1 ks)" "set (o2 ks) = set ks" "distinct (o2 ks)"
    "ks = concat (map (map fst) rows)"
  shows "select_headers (E\<lparr>set_order := o1\<rparr>) c rows = select_headers (E\<lparr>set_order := o2\<rparr>) c rows"
proof -
  have "sort (o1 ks) = sort (o2 ks)"
    by (rule sorted_distinct_set_unique) (simp_all add: assms(1-4))
  then show ?thesis using assms(5) by (simp add: select_headers_def)
qed

subsection \<open>The example records in the reference environment\<close>

lemma normalize_node_a: "normalize_node utc_env node_a = Inr row_a"
  by code_simp

lemma normalize_node_c: "normalize_node utc_env node_c = Inr row_c"
  by code_simp

lemma normalize_node_d: "normalize_node utc_env node_d = Inr row_d"
  by code_simp

lemma normalize_all_c_a: "normalize_all utc_env (map snd snapshot_c_a) = Inr [row_c, row_a]"
  by (simp add: snapshot_c_a_def normalize_node_a normalize_node_c)

lemma print_table_c_a:
  "print_table utc_env snapshot_c_a True False = Inr [[],
  ''#    user_id  user_hwModel  name                               hopsAway  snr   position_latitude  position_longitude  lastHeard_human      '',
  replicate 139 CHR ''='',
  CHR 0x1B # ''[42m'' @ CHR 0x1B # ''[97m'' @
  ''001  !a1                    Alice Station                      0         5.75                                         22:13:20 14/11/2023  ''
  @ CHR 0x1B # ''[0m'',
  ''002                         CAT                                1                                                                           '']"
  by code_simp

lemma normalize_node_after_last_heard:
  assumes "last_heard_block E node (flatten_dict (float_repr E) node []) = Inr flat1"
  shows "normalize_node E node \<noteq> Inl IndexError"
    and "normalize_node E node = Inr row \<Longrightarrow>
         map_of row ''lastHeard_human'' = map_of flat1 ''lastHeard_human''"
proof -
  show "normalize_node E node \<noteq> Inl IndexError"
    using normalize_node_IndexError [of E node] assms by auto
  assume "normalize_node E node = Inr row"
  then obtain f1 flat2 where
    b1: "last_heard_block E node (flatten_dict (float_repr E) node []) = Inr f1"
    and b2: "name_block node f1 = Inr flat2"
    and row: "row = snr_block E (via_hop_block flat2)"
    by (rule normalize_node_cases)
  from b1 assms have "f1 = flat1" by simp
  then show "map_of row ''lastHeard_human'' = map_of flat1 ''lastHeard_human''"
    using map_of_name_block [OF b2, of "''lastHeard_human''"]
    by (simp add: row map_of_snr_block map_of_via_hop_block)
qed

section \<open>The properties\<close>

text \<open>
  C1. The claim: for every raw record, also one whose \<^verbatim>\<open>lastHeard\<close> is 0, \<^verbatim>\<open>normalize_node\<close>
  returns a row and raises nothing. The code does not. Node B of the specification's scenario
  has \<^verbatim>\<open>lastHeard = 0\<close>: \<^verbatim>\<open>human_time\<close> gives the placeholder \<^verbatim>\<open>"-"\<close>, its split has one part,
  and \<^verbatim>\<open>tmp[1]\<close> raises \<^verbatim>\<open>IndexError\<close>, in every environment; \<^verbatim>\<open>print_table\<close> on a snapshot
  with that node ends with the same exception and prints nothing.
\<close>

theorem normalize_node_last_heard_zero_raises:
  "normalize_node E node_b = Inl IndexError
   \<and> print_table E [(2, node_b)] compact_flag sort_hop = Inl IndexError"
proof -
  have "normalize_node E node_b = Inl IndexError"
    by (simp add: node_b_def normalize_node_def last_heard_block_def human_time_def
        py_split_def py_isspace_def)
  then show ?thesis by (simp add: print_table_def)
qed

text \<open>
  C2. The claim: \<^verbatim>\<open>print_table\<close> writes one header line, one separator line and one line for
  each row, and nothing else. On the empty snapshot the code writes three lines, the first of
  them empty: line 166 is \<^verbatim>\<open>print("")\<close>.
\<close>

theorem print_table_empty_snapshot_counterexample:
  "print_table utc_env [] True False = Inr [[],
  ''#    user_id  user_hwModel  name                               hopsAway  snr  position_latitude  position_longitude  lastHeard_human  '',
  replicate 134 CHR ''='']"
  by code_simp

text \<open>
  C2, as amended. When every record of the snapshot normalizes, \<^verbatim>\<open>print_table\<close> returns, and
  it has written, in this order: one empty line, the header line, a line of \<^verbatim>\<open>=\<close> as long as
  the header line, and one line for each record; nothing else. This holds for the empty
  snapshot and for every setting of the two flags.
\<close>

theorem print_table_lines:
  assumes "\<forall>node\<in>set nodes. \<exists>row. normalize_node E (snd node) = Inr row"
  shows "\<exists>rows0. normalize_all E (map snd nodes) = Inr rows0 \<and>
     (let rows = sort_rows E s rows0;
          hs = select_headers E c rows0;
          hl = header_line (float_repr E) hs rows;
          body = map (printed_line (float_repr E) hs rows) (List.enumerate 1 rows)
      in print_table E nodes c s = Inr ([] # hl # replicate (length hl) CHR ''='' # body)
         \<and> length body = length nodes)"
proof -
  from assms have "\<forall>n\<in>set (map snd nodes). \<exists>row. normalize_node E n = Inr row" by simp
  then obtain rows0 where r: "normalize_all E (map snd nodes) = Inr rows0"
    using normalize_all_total by blast
  then have "length rows0 = length nodes" using normalize_all_length by fastforce
  then show ?thesis
    using r by (simp add: print_table_Inr [OF r] length_sort_rows Let_def)
qed

theorem print_table_lines_witness:
  "\<exists>rows0. normalize_all utc_env (map snd snapshot_c_a) = Inr rows0 \<and>
     (let rows = sort_rows utc_env True rows0;
          hs = select_headers utc_env False rows0;
          hl = header_line (float_repr utc_env) hs rows;
          body = map (printed_line (float_repr utc_env) hs rows) (List.enumerate 1 rows)
      in print_table utc_env snapshot_c_a False True
           = Inr ([] # hl # replicate (length hl) CHR ''='' # body)
         \<and> length body = length snapshot_c_a)"
proof -
  have "\<forall>node\<in>set snapshot_c_a. \<exists>row. normalize_node utc_env (snd node) = Inr row"
    by (simp add: snapshot_c_a_def normalize_node_a normalize_node_c)
  then show ?thesis by (rule print_table_lines)
qed

text \<open>
  C3. The claim: every normalized row has a field \<^verbatim>\<open>lastHeard_human\<close>, which is \<^verbatim>\<open>"-"\<close> when
  \<^verbatim>\<open>lastHeard\<close> is 0 or absent. The code adds the field under \<^verbatim>\<open>if "lastHeard" in d\<close> only:
  the row of a record without \<^verbatim>\<open>lastHeard\<close> has no such field.
\<close>

theorem last_heard_absent_counterexample:
  "normalize_node utc_env node_c = Inr row_c \<and> map_of row_c ''lastHeard_human'' = None"
  by (simp add: normalize_node_c) (simp add: row_c_def)

text \<open>
  C3, as amended. When the record has no key \<^verbatim>\<open>lastHeard\<close>, the normalizer derives no
  \<^verbatim>\<open>lastHeard_human\<close>: the row has that field only if the flattened record has it already.
  When \<^verbatim>\<open>lastHeard\<close> is a number other than 0 that \<^verbatim>\<open>fromtimestamp\<close> converts to local time,
  the field is that time as \<^verbatim>\<open>HH:MM:SS DD/MM/YYYY\<close>. In both cases the step raises no
  \<^verbatim>\<open>IndexError\<close>.
\<close>

theorem last_heard_human_field:
  "(map_of node ''lastHeard'' = None \<longrightarrow>
      normalize_node E node \<noteq> Inl IndexError \<and>
      (\<forall>row. normalize_node E node = Inr row \<longrightarrow>
         map_of row ''lastHeard_human''
           = map_of (flatten_dict (float_repr E) node []) ''lastHeard_human''))
   \<and> (\<forall>ts r t. map_of node ''lastHeard'' = Some ts \<and> py_number ts = Some r \<and> r \<noteq> 0
                \<and> fromtimestamp E r = Some t \<longrightarrow>
      normalize_node E node \<noteq> Inl IndexError \<and>
      (\<forall>row. normalize_node E node = Inr row \<longrightarrow>
         map_of row ''lastHeard_human''
           = Some (PStr (strftime_time t @ '' '' @ strftime_date t))))"
proof (intro conjI impI allI)
  assume "map_of node ''lastHeard'' = None"
  then have b: "last_heard_block E node (flatten_dict (float_repr E) node [])
      = Inr (flatten_dict (float_repr E) node [])"
    by (rule last_heard_block_absent)
  show "normalize_node E node \<noteq> Inl IndexError"
    by (rule normalize_node_after_last_heard(1) [OF b])
  fix row assume "normalize_node E node = Inr row"
  then show "map_of row ''lastHeard_human''
      = map_of (flatten_dict (float_repr E) node []) ''lastHeard_human''"
    by (rule normalize_node_after_last_heard(2) [OF b])
next
  fix ts r t
  assume a: "map_of node ''lastHeard'' = Some ts \<and> py_number ts = Some r \<and> r \<noteq> 0
    \<and> fromtimestamp E r = Some t"
  have b: "last_heard_block E node (flatten_dict (float_repr E) node []) =
      Inr (AList.update ''lastHeard_human'' (PStr (strftime_time t @ '' '' @ strftime_date t))
          (AList.update ''lastHeard_human'' (PStr (strftime t)) (flatten_dict (float_repr E) node [])))"
    by (rule last_heard_block_number [of node ts r E t]) (simp_all add: a)
  show "normalize_node E node \<noteq> Inl IndexError"
    by (rule normalize_node_after_last_heard(1) [OF b])
  fix row assume "normalize_node E node = Inr row"
  then have "map_of row ''lastHeard_human'' =
      map_of (AList.update ''lastHeard_human'' (PStr (strftime_time t @ '' '' @ strftime_date t))
          (AList.update ''lastHeard_human'' (PStr (strftime t)) (flatten_dict (float_repr E) node [])))
        ''lastHeard_human''"
    by (rule normalize_node_after_last_heard(2) [OF b])
  then show "map_of row ''lastHeard_human''
      = Some (PStr (strftime_time t @ '' '' @ strftime_date t))"
    by (simp only: update_conv' fun_upd_same)
qed

theorem last_heard_human_field_witness:
  "normalize_node utc_env node_a = Inr row_a
   \<and> fromtimestamp utc_env 1700000000
       = Some \<lparr>tm_year = 2023, tm_mon = 11, tm_mday = 14, tm_hour = 22, tm_min = 13, tm_sec = 20\<rparr>
   \<and> map_of row_a ''lastHeard_human'' = Some (PStr ''22:13:20 14/11/2023'')
   \<and> normalize_node utc_env node_a \<noteq> Inl IndexError"
proof -
  let ?t = "\<lparr>tm_year = 2023, tm_mon = 11, tm_mday = 14, tm_hour = 22, tm_min = 13, tm_sec = 20\<rparr>"
  have t: "fromtimestamp utc_env 1700000000 = Some ?t" by code_simp
  have l: "map_of node_a ''lastHeard'' = Some (PInt 1700000000)" by (simp add: node_a_def)
  have "map_of node_a ''lastHeard'' = Some (PInt 1700000000)
      \<and> py_number (PInt 1700000000) = Some 1700000000 \<and> (1700000000 :: rat) \<noteq> 0
      \<and> fromtimestamp utc_env 1700000000 = Some ?t"
    using t l by simp
  then have c: "normalize_node utc_env node_a \<noteq> Inl IndexError \<and>
      (\<forall>row. normalize_node utc_env node_a = Inr row \<longrightarrow>
         map_of row ''lastHeard_human'' = Some (PStr (strftime_time ?t @ '' '' @ strftime_date ?t)))"
    using last_heard_human_field [of node_a utc_env] by blast
  have s: "strftime_time ?t @ '' '' @ strftime_date ?t = ''22:13:20 14/11/2023''" by code_simp
  from c s normalize_node_a t show ?thesis by simp
qed

text \<open>
  C4. For every string, also the empty one, \<^verbatim>\<open>clean_name\<close> returns the string the
  specification describes (the characters other than ASCII letters, digits, space, underscore,
  hyphen and period removed, the result trimmed, cut to at most 35 characters and padded with
  spaces), and that string has exactly 35 characters.
\<close>

theorem clean_name_fixed_width:
  "clean_name (PStr raw) = Inr (clean_name_spec raw) \<and> length (clean_name_spec raw) = 35"
  by (simp add: clean_name_str length_clean_name_spec)

theorem clean_name_fixed_width_witness:
  "clean_name (PStr ''  Alice Station!!'') = Inr ''Alice Station                      ''
   \<and> clean_name (PStr []) = Inr ''                                   ''
   \<and> length ''Alice Station                      '' = 35"
proof -
  have "clean_name_spec ''  Alice Station!!'' = ''Alice Station                      ''"
    by code_simp
  moreover have "clean_name_spec [] = ''                                   ''"
    by code_simp
  ultimately show ?thesis
    using clean_name_fixed_width [of "''  Alice Station!!''"] clean_name_fixed_width [of "[]"]
    by simp
qed

text \<open>
  C5. The claim: without sort-by-hop, the rows are rendered by non-increasing key, a row whose
  \<^verbatim>\<open>lastHeard_human\<close> is \<^verbatim>\<open>"-"\<close>, blank or unparsable has key 0 and therefore comes last. The
  last part fails: a time before the epoch parses to a negative key, and the row of a node
  never heard (key 0) is rendered above the row of a node heard on 31 December 1969.
\<close>

theorem recency_placeholder_not_last_counterexample:
  "print_table utc_env snapshot_d_c True False = Inr [[],
  ''#    user_id  user_hwModel  name                               hopsAway  snr  position_latitude  position_longitude  lastHeard_human      '',
  replicate 138 CHR ''='',
  ''001                         CAT                                1                                                                          '',
  ''002                                                                                                                  00:00:00 31/12/1969  '']
   \<and> normalize_all utc_env (map snd snapshot_d_c) = Inr [row_d, row_c]
   \<and> ts_key utc_env row_c = 0
   \<and> ts_key utc_env row_d = - 86400"
proof -
  have "print_table utc_env snapshot_d_c True False = Inr [[],
  ''#    user_id  user_hwModel  name                               hopsAway  snr  position_latitude  position_longitude  lastHeard_human      '',
  replicate 138 CHR ''='',
  ''001                         CAT                                1                                                                          '',
  ''002                                                                                                                  00:00:00 31/12/1969  '']"
    by code_simp
  moreover have "normalize_all utc_env (map snd snapshot_d_c) = Inr [row_d, row_c]"
    by (simp add: snapshot_d_c_def normalize_node_c normalize_node_d)
  moreover have "ts_key utc_env row_c = 0" by code_simp
  moreover have "ts_key utc_env row_d = - 86400" by code_simp
  ultimately show ?thesis by simp
qed

text \<open>
  C5, as amended. Without sort-by-hop, the data lines are the rows of the snapshot rendered in
  non-increasing order of their key. The key of a row is 0 when \<^verbatim>\<open>lastHeard_human\<close> is absent,
  is no string, is \<^verbatim>\<open>"-"\<close>, is blank, or does not parse as \<^verbatim>\<open>HH:MM:SS DD/MM/YYYY\<close>, and the
  parsed epoch time otherwise. So no row with a positive key comes after a row with key 0
  (a row with a time before the epoch does).
\<close>

theorem recency_order:
  assumes "print_table E nodes c False = Inr out"
  shows "\<exists>rows0 rows. normalize_all E (map snd nodes) = Inr rows0 \<and> mset rows = mset rows0
     \<and> drop 3 out = map (printed_line (float_repr E) (select_headers E c rows0) rows) (List.enumerate 1 rows)
     \<and> sorted_wrt (\<lambda>a b. ts_key E b \<le> ts_key E a) rows
     \<and> (\<forall>i j. i < j \<and> j < length rows \<and> ts_key E (rows ! i) = 0 \<longrightarrow> ts_key E (rows ! j) \<le> 0)
     \<and> (\<forall>r. ts_key E r =
           (case map_of r ''lastHeard_human'' of
              None \<Rightarrow> 0
            | Some (PStr v) \<Rightarrow>
                if v = ''-'' \<or> (\<forall>c\<in>set v. py_isspace c) then 0
                else (case strptime_timestamp E v of None \<Rightarrow> 0 | Some t \<Rightarrow> t)
            | Some _ \<Rightarrow> 0))"
proof -
  from assms obtain rows0 where r: "normalize_all E (map snd nodes) = Inr rows0"
    by (rule print_table_Inr_rows)
  let ?rows = "sort_rows E False rows0"
  have s: "sorted_wrt (\<lambda>a b. ts_key E b \<le> ts_key E a) ?rows" by (rule sorted_ts)
  have "\<forall>i j. i < j \<and> j < length ?rows \<and> ts_key E (?rows ! i) = 0 \<longrightarrow> ts_key E (?rows ! j) \<le> 0"
    using sorted_wrt_nth_less [OF s] by fastforce
  moreover have "\<forall>r. ts_key E r =
           (case map_of r ''lastHeard_human'' of
              None \<Rightarrow> 0
            | Some (PStr v) \<Rightarrow>
                if v = ''-'' \<or> (\<forall>c\<in>set v. py_isspace c) then 0
                else (case strptime_timestamp E v of None \<Rightarrow> 0 | Some t \<Rightarrow> t)
            | Some _ \<Rightarrow> 0)"
    using ts_key_rule by blast
  ultimately show ?thesis
    using r s mset_sort_rows [of E False rows0] print_table_data_lines(1) [OF r assms]
    by blast
qed

theorem recency_order_witness:
  "\<exists>out rows0 rows. print_table utc_env snapshot_c_a True False = Inr out
     \<and> normalize_all utc_env (map snd snapshot_c_a) = Inr rows0 \<and> mset rows = mset rows0
     \<and> rows0 = [row_c, row_a] \<and> ts_key utc_env row_a = 1700000000 \<and> ts_key utc_env row_c = 0
     \<and> drop 3 out = map (printed_line (float_repr utc_env) (select_headers utc_env True rows0) rows)
          (List.enumerate 1 rows)
     \<and> sorted_wrt (\<lambda>a b. ts_key utc_env b \<le> ts_key utc_env a) rows"
proof -
  have a: "ts_key utc_env row_a = 1700000000" by code_simp
  have c: "ts_key utc_env row_c = 0" by code_simp
  from recency_order [OF print_table_c_a] obtain rows0 rows where
    "normalize_all utc_env (map snd snapshot_c_a) = Inr rows0" "mset rows = mset rows0"
    "drop 3 [[],
  ''#    user_id  user_hwModel  name                               hopsAway  snr   position_latitude  position_longitude  lastHeard_human      '',
  replicate 139 CHR ''='',
  CHR 0x1B # ''[42m'' @ CHR 0x1B # ''[97m'' @
  ''001  !a1                    Alice Station                      0         5.75                                         22:13:20 14/11/2023  ''
  @ CHR 0x1B # ''[0m'',
  ''002                         CAT                                1                                                                           '']
      = map (printed_line (float_repr utc_env) (select_headers utc_env True rows0) rows)
          (List.enumerate 1 rows)"
    "sorted_wrt (\<lambda>a b. ts_key utc_env b \<le> ts_key utc_env a) rows"
    by blast
  then show ?thesis
    using print_table_c_a normalize_all_c_a a c by auto
qed

text \<open>
  C6. With sort-by-hop, the data lines are the rows of the snapshot rendered in non-decreasing
  order of their key, which is \<^verbatim>\<open>int(hopsAway)\<close>, and 0 when \<^verbatim>\<open>hopsAway\<close> is absent or \<^verbatim>\<open>int\<close>
  raises on it.
\<close>

theorem hop_order:
  assumes "print_table E nodes c True = Inr out"
  shows "\<exists>rows0 rows. normalize_all E (map snd nodes) = Inr rows0 \<and> mset rows = mset rows0
     \<and> drop 3 out = map (printed_line (float_repr E) (select_headers E c rows0) rows) (List.enumerate 1 rows)
     \<and> sorted (map hop_key rows)
     \<and> (\<forall>r. hop_key r =
           (case map_of r ''hopsAway'' of
              None \<Rightarrow> 0
            | Some v \<Rightarrow> (case py_int v of None \<Rightarrow> 0 | Some i \<Rightarrow> i)))"
proof -
  from assms obtain rows0 where r: "normalize_all E (map snd nodes) = Inr rows0"
    by (rule print_table_Inr_rows)
  have "\<forall>r. hop_key r =
           (case map_of r ''hopsAway'' of
              None \<Rightarrow> 0
            | Some v \<Rightarrow> (case py_int v of None \<Rightarrow> 0 | Some i \<Rightarrow> i))"
    using hop_key_rule by blast
  then show ?thesis
    using r sorted_hop [of E rows0] mset_sort_rows [of E True rows0]
      print_table_data_lines(1) [OF r assms]
    by blast
qed

theorem hop_order_witness:
  "\<exists>out rows0 rows. print_table utc_env snapshot_c_a True True = Inr out
     \<and> normalize_all utc_env (map snd snapshot_c_a) = Inr rows0 \<and> mset rows = mset rows0
     \<and> rows0 = [row_c, row_a] \<and> hop_key row_a = 0 \<and> hop_key row_c = 1
     \<and> drop 3 out = map (printed_line (float_repr utc_env) (select_headers utc_env True rows0) rows)
          (List.enumerate 1 rows)
     \<and> sorted (map hop_key rows)"
proof -
  have a: "hop_key row_a = 0" by code_simp
  have c: "hop_key row_c = 1" by code_simp
  obtain out where o: "print_table utc_env snapshot_c_a True True = Inr out"
    using print_table_Inr [OF normalize_all_c_a] by blast
  from hop_order [OF o] obtain rows0 rows where
    "normalize_all utc_env (map snd snapshot_c_a) = Inr rows0" "mset rows = mset rows0"
    "drop 3 out = map (printed_line (float_repr utc_env) (select_headers utc_env True rows0) rows)
          (List.enumerate 1 rows)"
    "sorted (map hop_key rows)"
    by blast
  then show ?thesis
    using o normalize_all_c_a a c by auto
qed

text \<open>
  C7. The width of a column is 5 for \<^verbatim>\<open>#\<close>, 35 for \<^verbatim>\<open>name\<close>, and otherwise two more than the
  larger of the header's length and the greatest length of the column's content,
  \<^verbatim>\<open>str(r.get(h, ""))\<close>, over the rows (0 when there is no row). The column \<^verbatim>\<open>snr\<close> with the
  contents \<^verbatim>\<open>"1.23"\<close> and \<^verbatim>\<open>""\<close> has width 6.
\<close>

theorem col_width_rule:
  "col_width fr rows h =
     (if h = ''#'' then 5 else if h = ''name'' then 35
      else max (length h) (Max (insert 0 ((\<lambda>r. length (py_str fr (dict_get r h (PStr [])))) ` set rows))) + 2)
   \<and> col_width fr [[(''snr'', PStr ''1.23'')], [(''snr'', PStr [])]] ''snr'' = 6"
  by (simp add: col_width_def max_default_Max cell_text_def max.commute dict_get_def py_str_def)

text \<open>
  C8. A data line is the row's line between \<^verbatim>\<open>\x1b[42m\x1b[97m\<close> and \<^verbatim>\<open>\x1b[0m\<close> when
  \<^verbatim>\<open>str(r.get("hopsAway", "0"))\<close> is \<^verbatim>\<open>"0"\<close> and \<^verbatim>\<open>r.get("snr", "")\<close> is not the empty string;
  otherwise it is the row's line as it is, which never has that form. So a row whose
  \<^verbatim>\<open>hopsAway\<close> is \<^verbatim>\<open>"1"\<close>, or any string but \<^verbatim>\<open>"0"\<close>, is printed unstyled whatever its \<^verbatim>\<open>snr\<close>.
\<close>

theorem highlight_rule:
  assumes "print_table E nodes c s = Inr out" "i < length nodes"
  shows "\<exists>rows0. normalize_all E (map snd nodes) = Inr rows0 \<and>
     (let rows = sort_rows E s rows0;
          r = rows ! i;
          line = row_line (float_repr E) (select_headers E c rows0) rows (Suc i) r;
          cond = (py_str (float_repr E) (dict_get r ''hopsAway'' (PStr ''0'')) = ''0''
                  \<and> dict_get r ''snr'' (PStr []) \<noteq> PStr [])
      in (cond \<longrightarrow> out ! (3 + i) = (CHR 0x1B # ''[42m'' @ CHR 0x1B # ''[97m'') @ line @ (CHR 0x1B # ''[0m''))
       \<and> (\<not> cond \<longrightarrow> out ! (3 + i) = line)
       \<and> ((\<exists>body. out ! (3 + i) = (CHR 0x1B # ''[42m'' @ CHR 0x1B # ''[97m'') @ body @ (CHR 0x1B # ''[0m''))
            \<longleftrightarrow> cond))"
proof -
  from assms(1) obtain rows0 where r: "normalize_all E (map snd nodes) = Inr rows0"
    by (rule print_table_Inr_rows)
  let ?rows = "sort_rows E s rows0"
  let ?r = "?rows ! i"
  let ?line = "row_line (float_repr E) (select_headers E c rows0) ?rows (Suc i) ?r"
  let ?cond = "highlighted (float_repr E) ?r"
  have nth: "out ! (3 + i) = (if ?cond then ansi_prefix @ ?line @ ansi_suffix else ?line)"
    using print_table_line_nth [OF r assms] by (simp add: printed_line_def Let_def)
  obtain hs where hs: "select_headers E c rows0 = ''#'' # hs" using headers_start by blast
  have start: "?line \<noteq> []" "hd ?line \<noteq> CHR 0x1B"
    using row_line_start [of "float_repr E" hs ?rows "Suc i" ?r] hs by simp_all
  have plain: "\<And>body. ?line \<noteq> ansi_prefix @ body @ ansi_suffix"
    using not_wrapped_plain [OF start] by blast
  have pre: "ansi_prefix = CHR 0x1B # ''[42m'' @ CHR 0x1B # ''[97m''"
    and suf: "ansi_suffix = CHR 0x1B # ''[0m''"
    by (simp_all add: ansi_prefix_def ansi_suffix_def)
  have "(?cond \<longrightarrow> out ! (3 + i) = ansi_prefix @ ?line @ ansi_suffix)
       \<and> (\<not> ?cond \<longrightarrow> out ! (3 + i) = ?line)
       \<and> ((\<exists>body. out ! (3 + i) = ansi_prefix @ body @ ansi_suffix) \<longleftrightarrow> ?cond)"
    using nth plain by auto
  then show ?thesis
    unfolding pre suf highlighted_def Let_def using r by blast
qed

theorem highlight_rule_witness:
  "\<exists>out rows0. print_table utc_env snapshot_c_a True False = Inr out
     \<and> highlighted (float_repr utc_env) row_a \<and> \<not> highlighted (float_repr utc_env) row_c
     \<and> normalize_all utc_env (map snd snapshot_c_a) = Inr rows0 \<and>
     (let rows = sort_rows utc_env False rows0;
          r = rows ! 0;
          line = row_line (float_repr utc_env) (select_headers utc_env True rows0) rows (Suc 0) r;
          cond = (py_str (float_repr utc_env) (dict_get r ''hopsAway'' (PStr ''0'')) = ''0''
                  \<and> dict_get r ''snr'' (PStr []) \<noteq> PStr [])
      in (cond \<longrightarrow> out ! (3 + 0) = (CHR 0x1B # ''[42m'' @ CHR 0x1B # ''[97m'') @ line @ (CHR 0x1B # ''[0m''))
       \<and> (\<not> cond \<longrightarrow> out ! (3 + 0) = line)
       \<and> ((\<exists>body. out ! (3 + 0) = (CHR 0x1B # ''[42m'' @ CHR 0x1B # ''[97m'') @ body @ (CHR 0x1B # ''[0m''))
            \<longleftrightarrow> cond))"
proof -
  have l: "0 < length snapshot_c_a" by (simp add: snapshot_c_a_def)
  have a: "highlighted (float_repr utc_env) row_a" by code_simp
  have c: "\<not> highlighted (float_repr utc_env) row_c" by code_simp
  from highlight_rule [OF print_table_c_a l] a c print_table_c_a show ?thesis by blast
qed

text \<open>
  C9. Two runs on the same snapshot with the same flags, in the same environment, print the
  same lines or end with the same exception. What a run does not fix is the order in which
  the set of column names is iterated; whatever the two orders are, the results are equal.
\<close>

theorem print_table_deterministic:
  assumes "\<forall>ks. set (o1 ks) = set ks \<and> distinct (o1 ks)"
    and "\<forall>ks. set (o2 ks) = set ks \<and> distinct (o2 ks)"
  shows "print_table (E\<lparr>set_order := o1\<rparr>) nodes c s = print_table (E\<lparr>set_order := o2\<rparr>) nodes c s"
proof (cases "normalize_all E (map snd nodes)")
  case (Inl e)
  then show ?thesis by (simp add: print_table_def normalize_all_set_order)
next
  case (Inr rows0)
  have "select_headers (E\<lparr>set_order := o1\<rparr>) c rows0 = select_headers (E\<lparr>set_order := o2\<rparr>) c rows0"
    by (rule select_headers_orders [where ks = "concat (map (map fst) rows0)"]) (simp_all add: assms)
  then show ?thesis
    using Inr by (simp add: print_table_def normalize_all_set_order sort_rows_set_order Let_def)
qed

theorem print_table_deterministic_witness:
  "print_table (utc_env\<lparr>set_order := remdups\<rparr>) snapshot_c_a False False
   = print_table (utc_env\<lparr>set_order := \<lambda>ks. rev (remdups ks)\<rparr>) snapshot_c_a False False"
proof -
  have "\<forall>ks :: string list. set (remdups ks) = set ks \<and> distinct (remdups ks)" by simp
  moreover have "\<forall>ks :: string list. set (rev (remdups ks)) = set ks \<and> distinct (rev (remdups ks))"
    by simp
  ultimately show ?thesis by (rule print_table_deterministic)
qed

text \<open>
  C10. On a snapshot of fewer than 100000 records, every cell of every data line is exactly as
  wide as its column, so every data line, without the escape sequences around it when it has
  them, is as long as the header line, which is the sum of the column widths.
\<close>

theorem line_width:
  assumes "print_table E nodes c s = Inr out" "length nodes < 100000" "i < length nodes"
  shows "\<exists>rows0. normalize_all E (map snd nodes) = Inr rows0 \<and>
     (let rows = sort_rows E s rows0; hs = select_headers E c rows0
      in length (out ! 1) = sum_list (map (col_width (float_repr E) rows) hs)
       \<and> length (strip_ansi (out ! (3 + i))) = length (out ! 1)
       \<and> (\<forall>h\<in>set hs. length (row_cell (float_repr E) rows (Suc i) (rows ! i) h)
                         = col_width (float_repr E) rows h))"
proof -
  from assms(1) obtain rows0 where r: "normalize_all E (map snd nodes) = Inr rows0"
    by (rule print_table_Inr_rows)
  let ?rows = "sort_rows E s rows0"
  let ?hs = "select_headers E c rows0"
  let ?r = "?rows ! i"
  let ?line = "row_line (float_repr E) ?hs ?rows (Suc i) ?r"
  have len: "i < length (map snd nodes)" using assms(3) by simp
  have mem: "?r \<in> set ?rows"
    and name: "\<exists>str. map_of ?r ''name'' = Some (PStr str) \<and> length str = 35"
    using sorted_rows_normalized [OF r len] by blast+
  have idx: "Suc i < 100000" using assms(2,3) by simp
  have hl: "length (out ! 1) = sum_list (map (col_width (float_repr E) ?rows) ?hs)"
    using print_table_data_lines(2) [OF r assms(1)] by (simp add: length_header_line)
  have ll: "length ?line = sum_list (map (col_width (float_repr E) ?rows) ?hs)"
    by (rule length_row_line [OF mem idx name])
  have nth: "out ! (3 + i)
      = (if highlighted (float_repr E) ?r then ansi_prefix @ ?line @ ansi_suffix else ?line)"
    using print_table_line_nth [OF r assms(1,3)] by (simp add: printed_line_def Let_def)
  obtain hs' where hs: "?hs = ''#'' # hs'" using headers_start by blast
  have "hd ?line \<noteq> CHR 0x1B"
    using row_line_start [of "float_repr E" hs' ?rows "Suc i" ?r] hs by simp
  then have "strip_ansi ?line = ?line" by (simp add: strip_ansi_plain)
  then have "strip_ansi (out ! (3 + i)) = ?line"
    using nth by (simp add: strip_ansi_wrapped)
  then have sl: "length (strip_ansi (out ! (3 + i))) = length (out ! 1)"
    using hl ll by simp
  have "\<forall>h\<in>set ?hs. length (row_cell (float_repr E) ?rows (Suc i) ?r h)
      = col_width (float_repr E) ?rows h"
    using length_row_cell [OF mem idx name] by blast
  then show ?thesis using r hl sl unfolding Let_def by blast
qed

theorem line_width_witness:
  "\<exists>out rows0. print_table utc_env snapshot_c_a True False = Inr out
     \<and> length (out ! 1) = 139 \<and> length (out ! 3) = 153 \<and> length (out ! 4) = 139
     \<and> normalize_all utc_env (map snd snapshot_c_a) = Inr rows0 \<and>
     (let rows = sort_rows utc_env False rows0; hs = select_headers utc_env True rows0
      in length (out ! 1) = sum_list (map (col_width (float_repr utc_env) rows) hs)
       \<and> length (strip_ansi (out ! (3 + 0))) = length (out ! 1)
       \<and> (\<forall>h\<in>set hs. length (row_cell (float_repr utc_env) rows (Suc 0) (rows ! 0) h)
                         = col_width (float_repr utc_env) rows h))"
proof -
  have l: "length snapshot_c_a < 100000" "0 < length snapshot_c_a"
    by (simp_all add: snapshot_c_a_def)
  let ?out = "[[],
  ''#    user_id  user_hwModel  name                               hopsAway  snr   position_latitude  position_longitude  lastHeard_human      '',
  replicate 139 CHR ''='',
  CHR 0x1B # ''[42m'' @ CHR 0x1B # ''[97m'' @
  ''001  !a1                    Alice Station                      0         5.75                                         22:13:20 14/11/2023  ''
  @ CHR 0x1B # ''[0m'',
  ''002                         CAT                                1                                                                           '']"
  have n: "length (?out ! 1) = 139 \<and> length (?out ! 3) = 153 \<and> length (?out ! 4) = 139"
    by simp
  from line_width [OF print_table_c_a l] n print_table_c_a show ?thesis by blast
qed

end
